theory Spec2Isabelle
  imports Main "HOL-Library.Word"
begin

section \<open>The reflection service of src/index.js\<close>

text \<open>
  The server keeps two arrays, \<open>services\<close> and \<open>fileDescriptorProtos\<close>, filled by
  \<open>addReflectedService\<close> before the server starts, and answers every \<open>data\<close> event of a
  reflection stream from them. The model below follows the handler line by line:
  the arrays are lists, \<open>call.write\<close> appends to the list of written responses of the
  call, a thrown exception is the \<open>Inl\<close> of a sum, and the two nested \<open>for ... of\<close>
  loops with their early \<open>return\<close> are two recursive functions.
\<close>

subsection \<open>Data\<close>

text \<open>A Node \<open>Buffer\<close>: a sequence of bytes.\<close>

type_synonym buffer = "8 word list"

text \<open>
  What \<open>FileDescriptorProto.decode\<close> returns, restricted to the fields the handler reads:
  \<open>fdp.name\<close> (here \<open>fdp_name\<close>), \<open>fdp.package\<close>, and the \<open>name\<close> of every element of
  \<open>fdp.service\<close>, \<open>fdp.messageType\<close> and \<open>fdp.enumType\<close>. An absent string field of a
  decoded message reads as the empty string and an absent repeated field as the
  empty array.
\<close>

record descriptor_proto =
  name :: string

record file_descriptor_proto =
  fdp_name :: string
  package :: string
  service :: "descriptor_proto list"
  messageType :: "descriptor_proto list"
  enumType :: "descriptor_proto list"

text \<open>
  The decoder \<open>descriptorProto.lookupType('google.protobuf.FileDescriptorProto').decode\<close>
  belongs to the protobufjs library; it is a parameter of the model. \<open>None\<close> stands
  for a decode that throws.
\<close>

type_synonym decoder = "buffer \<Rightarrow> file_descriptor_proto option"

text \<open>
  A service definition is an object from method names to method definitions; the code
  only looks at \<open>Object.values(service)\<close>, so a service is the list of its method
  definitions in that order. Of a method definition the code reads \<open>path\<close> and
  \<open>requestType?.fileDescriptorProtos\<close>; \<open>None\<close> is \<open>undefined\<close>.
\<close>

record message_type_definition =
  mt_fileDescriptorProtos :: "buffer list option"

record method_definition =
  path :: string
  requestType :: "message_type_definition option"

type_synonym service_definition = "method_definition list"

text \<open>
  What \<open>start\<close> closes over: the two arrays, and the grpc server. Of the server the
  model keeps the method paths that have a handler, in the order they were added;
  \<open>server.addService\<close> refuses a path that is among them.
\<close>

record registry =
  services :: "service_definition list"
  fileDescriptorProtos :: "buffer list list"
  handlers :: "string list"

text \<open>
  An inbound request: an object on which each field is a string or \<open>undefined\<close>. The
  handler destructures the first three fields only.
\<close>

record request =
  listServices :: "string option"
  fileContainingSymbol :: "string option"
  fileByFilename :: "string option"
  fileContainingExtension :: "string option"
  allExtensionNumbersOfType :: "string option"

text \<open>
  An outbound response. The argument of \<open>listServicesResponse\<close> is the \<open>name\<close> of each
  \<open>{name}\<close> object of the \<open>service\<close> array, \<open>None\<close> when the name is \<open>undefined\<close>.
\<close>

datatype response =
  listServicesResponse "string option list"
| fileDescriptorResponse "buffer list"
| errorResponse int

text \<open>The status codes \<open>grpc.status.NOT_FOUND\<close> and \<open>grpc.status.UNIMPLEMENTED\<close>.\<close>

definition NOT_FOUND :: int where
  "NOT_FOUND = 5"

definition UNIMPLEMENTED :: int where
  "UNIMPLEMENTED = 12"

text \<open>
  The exceptions: a property read on \<open>undefined\<close>, whatever the decoder throws on bytes it
  cannot parse, and the error that \<open>server.addService\<close> throws.
\<close>

datatype error = TypeError | DecodeError | AddServiceError

text \<open>
  The call object as the handlers use it: the arguments of \<open>call.write\<close> so far, in
  order, and whether \<open>call.end\<close> has run.
\<close>

record call =
  written :: "response list"
  ended :: bool

definition call_write :: "response \<Rightarrow> call \<Rightarrow> call" where
  "call_write r c = c\<lparr>written := written c @ [r]\<rparr>"

definition call_end :: "call \<Rightarrow> call" where
  "call_end c = c\<lparr>ended := True\<rparr>"

subsection \<open>JavaScript primitives\<close>

text \<open>\<open>if (x)\<close> on a value that is a string or \<open>undefined\<close>: false on both \<open>undefined\<close> and \<open>""\<close>.\<close>

fun truthy :: "string option \<Rightarrow> bool" where
  "truthy None = False"
| "truthy (Some s) = (s \<noteq> [])"

text \<open>\<open>Array.prototype.findIndex\<close>: the index of the first element that satisfies \<open>p\<close>, or \<open>-1\<close>.\<close>

fun findIndex_from :: "int \<Rightarrow> ('a \<Rightarrow> bool) \<Rightarrow> 'a list \<Rightarrow> int" where
  "findIndex_from i p [] = - 1"
| "findIndex_from i p (x # xs) = (if p x then i else findIndex_from (i + 1) p xs)"

definition findIndex :: "('a \<Rightarrow> bool) \<Rightarrow> 'a list \<Rightarrow> int" where
  "findIndex p xs = findIndex_from 0 p xs"

text \<open>\<open>String.prototype.split\<close> with a one-character separator; \<open>"".split('/')\<close> is \<open>[""]\<close>.\<close>

fun split :: "char \<Rightarrow> string \<Rightarrow> string list" where
  "split sep [] = [[]]"
| "split sep (c # cs) =
     (if c = sep then [] # split sep cs
      else (case split sep cs of
              [] \<Rightarrow> [[c]]
            | w # ws \<Rightarrow> (c # w) # ws))"

text \<open>An array read \<open>xs[i]\<close>: \<open>undefined\<close> out of range.\<close>

definition at_index :: "'a list \<Rightarrow> nat \<Rightarrow> 'a option" where
  "at_index xs i = (if i < length xs then Some (xs ! i) else None)"

subsection \<open>Registration\<close>

text \<open>
  \<open>server.addService(service, implementation)\<close> of the grpc library, as line 54 calls it.
  It throws on a service without methods; otherwise it registers a handler for the path
  of each method in turn, and throws at the first path that already has one.
\<close>

fun register_handlers :: "method_definition list \<Rightarrow> string list \<Rightarrow> error + string list" where
  "register_handlers [] hs = Inr hs"
| "register_handlers (m # ms) hs =
     (if path m \<in> set hs then Inl AddServiceError
      else register_handlers ms (hs @ [path m]))"

definition addService :: "service_definition \<Rightarrow> string list \<Rightarrow> error + string list" where
  "addService svc hs = (if svc = [] then Inl AddServiceError else register_handlers svc hs)"

text \<open>
  \<open>addReflectedService\<close> (lines 50 to 55). The service is pushed first; reading
  \<open>.requestType\<close> of the first method then throws when the service has no method. An
  array is always truthy, so an empty \<open>fileDescriptorProtos\<close> array is pushed as a group
  too. The last line hands the service to the server, which throws when one of its
  paths already has a handler. An exception leaves \<open>start\<close>, which exits the process, so
  that no registry survives it.
\<close>

definition addReflectedService :: "service_definition \<Rightarrow> registry \<Rightarrow> error + registry" where
  "addReflectedService svc reg =
     (let reg1 = reg\<lparr>services := services reg @ [svc]\<rparr> in
      case svc of
        [] \<Rightarrow> Inl TypeError
      | m # _ \<Rightarrow>
          (let protos = (case requestType m of
                           None \<Rightarrow> None
                         | Some rt \<Rightarrow> mt_fileDescriptorProtos rt);
               reg2 = (case protos of
                         None \<Rightarrow> reg1
                       | Some ps \<Rightarrow> reg1\<lparr>fileDescriptorProtos := fileDescriptorProtos reg1 @ [ps]\<rparr>)
           in case addService svc (handlers reg2) of
                Inl e \<Rightarrow> Inl e
              | Inr hs \<Rightarrow> Inr (reg2\<lparr>handlers := hs\<rparr>)))"

text \<open>
  The state in which the first \<open>addReflectedService\<close> runs: both arrays are empty, and
  the server already holds the handler of the reflection service itself, added on
  line 62 by \<open>server.addService\<close> directly, so that it is in neither array.
\<close>

definition reflection_path :: string where
  "reflection_path = ''/grpc.reflection.v1alpha.ServerReflection/ServerReflectionInfo''"

definition empty_registry :: registry where
  "empty_registry = \<lparr>services = [], fileDescriptorProtos = [], handlers = [reflection_path]\<rparr>"

text \<open>A sequence of registrations, in order, stopping at the first exception.\<close>

fun register_all :: "service_definition list \<Rightarrow> registry \<Rightarrow> error + registry" where
  "register_all [] reg = Inr reg"
| "register_all (svc # svcs) reg =
     (case addReflectedService svc reg of
        Inl e \<Rightarrow> Inl e
      | Inr reg' \<Rightarrow> register_all svcs reg')"

subsection \<open>The \<open>data\<close> handler\<close>

text \<open>
  Lines 89 to 92: \<open>services.map(service => ({name: Object.values(service)[0].path.split('/')[1]}))\<close>.
  Reading \<open>.path\<close> of \<open>undefined\<close> throws for a service without methods.
\<close>

fun service_names :: "service_definition list \<Rightarrow> error + string option list" where
  "service_names [] = Inr []"
| "service_names (svc # svcs) =
     (case svc of
        [] \<Rightarrow> Inl TypeError
      | m # _ \<Rightarrow>
          (case service_names svcs of
             Inl e \<Rightarrow> Inl e
           | Inr ns \<Rightarrow> Inr (at_index (split (CHR ''/'') (path m)) 1 # ns)))"

text \<open>
  Lines 107 to 113, the test made on one decoded buffer. The symbol is passed as the
  request field itself, a string or \<open>undefined\<close>, and \<open>===\<close> compares a string with it.
\<close>

definition symbol_match :: "file_descriptor_proto \<Rightarrow> string option \<Rightarrow> bool" where
  "symbol_match fdp symbol =
     (let packageName = (if package fdp = [] then package fdp else package fdp @ ''.'');
          serviceMatch = (findIndex (\<lambda>d. Some (packageName @ name d) = symbol) (service fdp) \<noteq> - 1);
          messageTypeMatch = (findIndex (\<lambda>d. Some (packageName @ name d) = symbol) (messageType fdp) \<noteq> - 1);
          enumTypeMatch = (findIndex (\<lambda>d. Some (packageName @ name d) = symbol) (enumType fdp) \<noteq> - 1)
      in Some (package fdp) = symbol \<or> serviceMatch \<or> messageTypeMatch \<or> enumTypeMatch)"

text \<open>Line 144, the test of the file name search.\<close>

definition filename_match :: "file_descriptor_proto \<Rightarrow> string option \<Rightarrow> bool" where
  "filename_match fdp fname = (Some (fdp_name fdp) = fname)"

text \<open>
  The inner loop \<open>for (const proto of protos)\<close>, lines 105 to 122 and 140 to 153, with the
  test as a parameter. \<open>protos\<close> is the whole group, \<open>rest\<close> what is left to visit. The
  result is \<open>Some\<close> of the call after the write when the handler returned from inside
  the loop, \<open>None\<close> when the loop ran to its end.
\<close>

fun search_group ::
  "decoder \<Rightarrow> (file_descriptor_proto \<Rightarrow> bool) \<Rightarrow> buffer list \<Rightarrow> buffer list \<Rightarrow> call \<Rightarrow> error + call option" where
  "search_group dec test protos [] c = Inr None"
| "search_group dec test protos (proto # rest) c =
     (case dec proto of
        None \<Rightarrow> Inl DecodeError
      | Some fdp \<Rightarrow>
          (if test fdp then Inr (Some (call_write (fileDescriptorResponse protos) c))
           else search_group dec test protos rest c))"

text \<open>The outer loop \<open>for (const protos of fileDescriptorProtos)\<close>.\<close>

fun search_groups ::
  "decoder \<Rightarrow> (file_descriptor_proto \<Rightarrow> bool) \<Rightarrow> buffer list list \<Rightarrow> call \<Rightarrow> error + call option" where
  "search_groups dec test [] c = Inr None"
| "search_groups dec test (protos # groups) c =
     (case search_group dec test protos protos c of
        Inl e \<Rightarrow> Inl e
      | Inr (Some c') \<Rightarrow> Inr (Some c')
      | Inr None \<Rightarrow> search_groups dec test groups c)"

text \<open>A search followed by the \<open>NOT_FOUND\<close> write of lines 125 to 131 and 156 to 162.\<close>

definition search_or_not_found ::
  "decoder \<Rightarrow> (file_descriptor_proto \<Rightarrow> bool) \<Rightarrow> buffer list list \<Rightarrow> call \<Rightarrow> error + call" where
  "search_or_not_found dec test groups c =
     (case search_groups dec test groups c of
        Inl e \<Rightarrow> Inl e
      | Inr (Some c') \<Rightarrow> Inr c'
      | Inr None \<Rightarrow> Inr (call_write (errorResponse NOT_FOUND) c))"

text \<open>The handler of \<open>call.on('data', ...)\<close>, lines 81 to 171.\<close>

definition on_data :: "registry \<Rightarrow> decoder \<Rightarrow> request \<Rightarrow> call \<Rightarrow> error + call" where
  "on_data reg dec req c =
     (if truthy (listServices req) then
        (case service_names (services reg) of
           Inl e \<Rightarrow> Inl e
         | Inr ns \<Rightarrow> Inr (call_write (listServicesResponse ns) c))
      else if truthy (fileContainingSymbol req) then
        search_or_not_found dec (\<lambda>fdp. symbol_match fdp (fileContainingSymbol req))
          (fileDescriptorProtos reg) c
      else if truthy (fileByFilename req) then
        search_or_not_found dec (\<lambda>fdp. filename_match fdp (fileByFilename req))
          (fileDescriptorProtos reg) c
      else Inr (call_write (errorResponse UNIMPLEMENTED) c))"

subsection \<open>The session\<close>

text \<open>
  The three events the handler subscribes to. The \<open>end\<close> handler calls \<open>call.end()\<close>;
  the \<open>cancelled\<close> handler only logs. An exception that leaves a handler is not caught
  anywhere: it is recorded in \<open>uncaught\<close>, and no handler runs after it.
\<close>

datatype event = Data request | End | Cancelled

record session =
  stream :: call
  uncaught :: "error option"

definition new_call :: call where
  "new_call = \<lparr>written = [], ended = False\<rparr>"

definition new_session :: session where
  "new_session = \<lparr>stream = new_call, uncaught = None\<rparr>"

fun session_step :: "registry \<Rightarrow> decoder \<Rightarrow> session \<Rightarrow> event \<Rightarrow> session" where
  "session_step reg dec s (Data req) =
     (if uncaught s \<noteq> None then s
      else (case on_data reg dec req (stream s) of
              Inl e \<Rightarrow> s\<lparr>uncaught := Some e\<rparr>
            | Inr c \<Rightarrow> s\<lparr>stream := c\<rparr>))"
| "session_step reg dec s End =
     (if uncaught s \<noteq> None then s else s\<lparr>stream := call_end (stream s)\<rparr>)"
| "session_step reg dec s Cancelled = s"

definition run_session :: "registry \<Rightarrow> decoder \<Rightarrow> session \<Rightarrow> event list \<Rightarrow> session" where
  "run_session reg dec s evs = foldl (session_step reg dec) s evs"

subsection \<open>The specification's notions\<close>

text \<open>
  The qualified name of section 3 of the specification: \<open>{packageName}.{name}\<close> when the
  package name is not empty, \<open>{name}\<close> otherwise.
\<close>

definition spec_qualified_name :: "string \<Rightarrow> string \<Rightarrow> string" where
  "spec_qualified_name pkg n = (if pkg \<noteq> [] then pkg @ ''.'' @ n else n)"

text \<open>
  Section 4.3, rule 2: a decoded buffer matches a symbol when its package name equals the
  symbol, or the qualified name of one of its services, messages or enums does.
\<close>

definition spec_symbol_matches :: "file_descriptor_proto \<Rightarrow> string \<Rightarrow> bool" where
  "spec_symbol_matches fdp s =
     (package fdp = s \<or>
      (\<exists>d \<in> set (service fdp) \<union> set (messageType fdp) \<union> set (enumType fdp).
         spec_qualified_name (package fdp) (name d) = s))"

text \<open>Section 4.3, rule 3: the decoded file name equals the requested one.\<close>

definition spec_filename_matches :: "file_descriptor_proto \<Rightarrow> string \<Rightarrow> bool" where
  "spec_filename_matches fdp f = (fdp_name fdp = f)"

text \<open>Every buffer of \<open>bs\<close> decodes, and none of the decoded descriptors satisfies \<open>P\<close>.\<close>

definition decoded_without_match ::
  "decoder \<Rightarrow> (file_descriptor_proto \<Rightarrow> bool) \<Rightarrow> buffer list \<Rightarrow> bool" where
  "decoded_without_match dec P bs =
     (\<forall>b \<in> set bs. case dec b of None \<Rightarrow> False | Some fdp \<Rightarrow> \<not> P fdp)"

text \<open>The buffer decodes to a descriptor that satisfies \<open>P\<close>.\<close>

definition decoded_match :: "decoder \<Rightarrow> (file_descriptor_proto \<Rightarrow> bool) \<Rightarrow> buffer \<Rightarrow> bool" where
  "decoded_match dec P b = (case dec b of None \<Rightarrow> False | Some fdp \<Rightarrow> P fdp)"

text \<open>
  A service registered under the qualified name \<open>q\<close>: the path of its first method is
  \<open>/q/method\<close> (the comment of line 90), and a qualified name has no slash.
\<close>

definition service_named :: "string \<Rightarrow> service_definition \<Rightarrow> bool" where
  "service_named q svc =
     (case svc of
        [] \<Rightarrow> False
      | m # _ \<Rightarrow> CHR ''/'' \<notin> set q \<and> take (length q + 2) (path m) = ''/'' @ q @ ''/'')"

subsection \<open>An example registry\<close>

text \<open>
  The greeter service that \<open>start\<close> registers, with one schema buffer of package
  \<open>greeter\<close>; a second group whose file declares no package; and a decoder that knows
  these two buffers and throws on every other one.
\<close>

definition greeter_buffer :: buffer where
  "greeter_buffer = [10, 13]"

definition plain_buffer :: buffer where
  "plain_buffer = [10, 11]"

definition broken_buffer :: buffer where
  "broken_buffer = [255]"

definition greeter_fdp :: file_descriptor_proto where
  "greeter_fdp =
     \<lparr>fdp_name = ''greeter.proto'', package = ''greeter'',
      service = [\<lparr>name = ''Greeter''\<rparr>],
      messageType = [\<lparr>name = ''HelloRequest''\<rparr>, \<lparr>name = ''HelloReply''\<rparr>],
      enumType = []\<rparr>"

definition plain_fdp :: file_descriptor_proto where
  "plain_fdp =
     \<lparr>fdp_name = ''plain.proto'', package = [],
      service = [\<lparr>name = ''Plain''\<rparr>],
      messageType = [\<lparr>name = ''Ping''\<rparr>],
      enumType = [\<lparr>name = ''Mode''\<rparr>]\<rparr>"

definition example_decode :: decoder where
  "example_decode b =
     (if b = greeter_buffer then Some greeter_fdp
      else if b = plain_buffer then Some plain_fdp
      else None)"

definition greeter_service :: service_definition where
  "greeter_service =
     [\<lparr>path = ''/greeter.Greeter/SayHello'',
       requestType = Some \<lparr>mt_fileDescriptorProtos = Some [greeter_buffer]\<rparr>\<rparr>]"

definition plain_service :: service_definition where
  "plain_service =
     [\<lparr>path = ''/Plain/Ping'',
       requestType = Some \<lparr>mt_fileDescriptorProtos = Some [plain_buffer]\<rparr>\<rparr>]"

definition bare_service :: service_definition where
  "bare_service = [\<lparr>path = ''/bare.Bare/Call'', requestType = None\<rparr>]"

definition broken_service :: service_definition where
  "broken_service =
     [\<lparr>path = ''/broken.Broken/Call'',
       requestType = Some \<lparr>mt_fileDescriptorProtos = Some [broken_buffer, plain_buffer]\<rparr>\<rparr>]"

definition no_request :: request where
  "no_request =
     \<lparr>listServices = None, fileContainingSymbol = None, fileByFilename = None,
      fileContainingExtension = None, allExtensionNumbersOfType = None\<rparr>"

definition greeter_registry :: registry where
  "greeter_registry =
     \<lparr>services = [greeter_service], fileDescriptorProtos = [[greeter_buffer]],
      handlers = [reflection_path, ''/greeter.Greeter/SayHello'']\<rparr>"

definition example_registry :: registry where
  "example_registry =
     \<lparr>services = [greeter_service, bare_service, plain_service],
      fileDescriptorProtos = [[greeter_buffer], [plain_buffer]],
      handlers = [reflection_path, ''/greeter.Greeter/SayHello'', ''/bare.Bare/Call'', ''/Plain/Ping'']\<rparr>"

definition broken_registry :: registry where
  "broken_registry =
     \<lparr>services = [greeter_service, broken_service],
      fileDescriptorProtos = [[greeter_buffer], [broken_buffer, plain_buffer]],
      handlers = [reflection_path, ''/greeter.Greeter/SayHello'', ''/broken.Broken/Call'']\<rparr>"

definition example_requests :: "request list" where
  "example_requests =
     [no_request\<lparr>listServices := Some ''*''\<rparr>,
      no_request\<lparr>fileContainingSymbol := Some ''greeter.Greeter''\<rparr>,
      no_request\<lparr>fileByFilename := Some ''nope.proto''\<rparr>]"

subsection \<open>The response to one request\<close>

text \<open>
  What the handler writes for one request on a call that has nothing written yet; the
  empty list when the handler throws.
\<close>

definition response_to :: "registry \<Rightarrow> decoder \<Rightarrow> request \<Rightarrow> response list" where
  "response_to reg dec req =
     (case on_data reg dec req new_call of
        Inl e \<Rightarrow> []
      | Inr c \<Rightarrow> written c)"

section \<open>Properties\<close>

subsection \<open>The primitives\<close>

lemma findIndex_from_found:
  "0 \<le> i \<Longrightarrow> (findIndex_from i p xs \<noteq> - 1) = (\<exists>x \<in> set xs. p x)"
  by (induction xs arbitrary: i) auto

lemma findIndex_found: "(findIndex p xs \<noteq> - 1) = (\<exists>x \<in> set xs. p x)"
  by (simp add: findIndex_def findIndex_from_found)

lemma split_nonempty: "split sep s \<noteq> []"
  by (induction s) (auto split: list.splits)

lemma split_first_field:
  "sep \<notin> set q \<Longrightarrow> split sep (q @ sep # rest) = q # split sep rest"
  by (induction q) (auto split: list.splits)

lemma split_second_field:
  assumes "sep \<notin> set q"
  shows "at_index (split sep (sep # q @ sep # rest)) 1 = Some q"
  using assms split_nonempty [of sep rest]
  by (simp add: split_first_field at_index_def)

text \<open>The source's test on a decoded buffer is the specification's notion of a match.\<close>

lemma symbol_match_spec: "symbol_match fdp (Some s) = spec_symbol_matches fdp s"
  by (auto simp: symbol_match_def spec_symbol_matches_def spec_qualified_name_def
        findIndex_found Let_def)

lemma filename_match_spec: "filename_match fdp (Some f) = spec_filename_matches fdp f"
  by (auto simp: filename_match_def spec_filename_matches_def)

subsection \<open>Registration\<close>

lemma addReflectedService_services:
  "addReflectedService svc reg = Inr reg' \<Longrightarrow> services reg' = services reg @ [svc] \<and> svc \<noteq> []"
  by (auto simp: addReflectedService_def Let_def split: list.splits option.splits sum.splits)

lemma register_all_services:
  "register_all svcs reg = Inr reg' \<Longrightarrow> services reg' = services reg @ svcs \<and> [] \<notin> set svcs"
proof (induction svcs arbitrary: reg)
  case Nil
  then show ?case by simp
next
  case (Cons svc svcs)
  then obtain reg1 where r1: "addReflectedService svc reg = Inr reg1"
    and rest: "register_all svcs reg1 = Inr reg'"
    by (auto split: sum.splits)
  from Cons.IH [OF rest] addReflectedService_services [OF r1]
  show ?case by auto
qed

lemma register_handlers_grow:
  "register_handlers ms hs = Inr hs' \<Longrightarrow> set hs \<subseteq> set hs' \<and> path ` set ms \<subseteq> set hs'"
proof (induction ms arbitrary: hs)
  case Nil
  then show ?case by simp
next
  case (Cons m ms)
  then have rest: "register_handlers ms (hs @ [path m]) = Inr hs'"
    by (auto split: if_splits)
  from Cons.IH [OF rest] show ?case by auto
qed

text \<open>A second registration of the same service throws: its path has a handler already.\<close>

lemma addReflectedService_twice:
  assumes "addReflectedService svc reg = Inr reg'"
  shows "addReflectedService svc reg' = Inl AddServiceError"
proof -
  from assms obtain m ms where svc: "svc = m # ms"
    by (cases svc) (auto simp: addReflectedService_def)
  from assms svc obtain hs hs' where hs: "register_handlers (m # ms) hs = Inr hs'"
    and reg': "handlers reg' = hs'"
    by (auto simp: addReflectedService_def addService_def Let_def split: sum.splits)
  from register_handlers_grow [OF hs] reg' have "path m \<in> set (handlers reg')"
    by auto
  with svc show ?thesis
    by (simp add: addReflectedService_def addService_def Let_def split: option.splits)
qed

lemma service_names_total:
  "[] \<notin> set svcs \<Longrightarrow>
   service_names svcs = Inr (map (\<lambda>svc. at_index (split (CHR ''/'') (path (hd svc))) 1) svcs)"
  by (induction svcs) (auto split: list.splits)

lemma service_named_name:
  assumes "service_named q svc"
  shows "svc \<noteq> [] \<and> at_index (split (CHR ''/'') (path (hd svc))) 1 = Some q"
proof -
  from assms obtain m ms where svc: "svc = m # ms" and q: "CHR ''/'' \<notin> set q"
    and pre: "take (length q + 2) (path m) = ''/'' @ q @ ''/''"
    by (auto simp: service_named_def split: list.splits)
  have "path m = take (length q + 2) (path m) @ drop (length q + 2) (path m)"
    by simp
  with pre have "path m = CHR ''/'' # q @ CHR ''/'' # drop (length q + 2) (path m)"
    by simp
  then have "at_index (split (CHR ''/'') (path m)) 1 = Some q"
    using split_second_field [OF q, of "drop (length q + 2) (path m)"] by simp
  with svc show ?thesis by simp
qed

subsection \<open>The search loops\<close>

lemma decoded_without_match_append:
  "decoded_without_match dec P (xs @ ys) =
     (decoded_without_match dec P xs \<and> decoded_without_match dec P ys)"
  by (auto simp: decoded_without_match_def)

lemma decoded_without_match_concat:
  "decoded_without_match dec P (concat gs) = (\<forall>g \<in> set gs. decoded_without_match dec P g)"
  by (auto simp: decoded_without_match_def)

lemma search_group_no_match:
  "decoded_without_match dec P rest \<Longrightarrow> search_group dec P protos rest c = Inr None"
  by (induction rest) (auto simp: decoded_without_match_def split: option.splits)

lemma search_group_first_match:
  "decoded_without_match dec P bpre \<Longrightarrow> decoded_match dec P b \<Longrightarrow>
   search_group dec P protos (bpre @ b # bpost) c =
     Inr (Some (call_write (fileDescriptorResponse protos) c))"
  by (induction bpre)
     (auto simp: decoded_without_match_def decoded_match_def split: option.splits)

lemma search_group_decode_failure:
  "decoded_without_match dec P bpre \<Longrightarrow> dec b = None \<Longrightarrow>
   search_group dec P protos (bpre @ b # bpost) c = Inl DecodeError"
  by (induction bpre) (auto simp: decoded_without_match_def split: option.splits)

lemma search_groups_no_match:
  "decoded_without_match dec P (concat groups) \<Longrightarrow> search_groups dec P groups c = Inr None"
  by (induction groups) (simp_all add: decoded_without_match_append search_group_no_match)

lemma search_groups_skip:
  "decoded_without_match dec P (concat pre) \<Longrightarrow>
   search_groups dec P (pre @ groups) c = search_groups dec P groups c"
  by (induction pre) (simp_all add: decoded_without_match_append search_group_no_match)

lemma search_groups_first_match:
  assumes "decoded_without_match dec P (concat pre @ bpre)" and "decoded_match dec P b"
  shows "search_groups dec P (pre @ (bpre @ b # bpost) # post) c =
           Inr (Some (call_write (fileDescriptorResponse (bpre @ b # bpost)) c))"
proof -
  from assms(1) have pre: "decoded_without_match dec P (concat pre)"
    and bpre: "decoded_without_match dec P bpre"
    by (simp_all add: decoded_without_match_append)
  show ?thesis
    by (simp add: search_groups_skip [OF pre] search_group_first_match [OF bpre assms(2)])
qed

lemma search_groups_decode_failure:
  assumes "decoded_without_match dec P (concat pre @ bpre)" and "dec b = None"
  shows "search_groups dec P (pre @ (bpre @ b # bpost) # post) c = Inl DecodeError"
proof -
  from assms(1) have pre: "decoded_without_match dec P (concat pre)"
    and bpre: "decoded_without_match dec P bpre"
    by (simp_all add: decoded_without_match_append)
  show ?thesis
    by (simp add: search_groups_skip [OF pre] search_group_decode_failure [OF bpre assms(2)])
qed

text \<open>
  What a handler does to the call does not depend on the call: it throws, or it appends
  one response that is the same for every call.
\<close>

lemma search_group_outcome:
  "\<exists>res. \<forall>c. search_group dec P protos rest c =
      map_sum id (map_option (\<lambda>r. call_write r c)) res"
proof (induction rest)
  case Nil
  show ?case by (rule exI [of _ "Inr None"]) simp
next
  case (Cons b rest)
  show ?case
  proof (cases "dec b")
    case None
    then show ?thesis by (intro exI [of _ "Inl DecodeError"]) simp
  next
    case (Some fdp)
    show ?thesis
    proof (cases "P fdp")
      case True
      with Some show ?thesis
        by (intro exI [of _ "Inr (Some (fileDescriptorResponse protos))"]) simp
    next
      case False
      with Some Cons.IH show ?thesis by simp
    qed
  qed
qed

lemma search_groups_outcome:
  "\<exists>res. \<forall>c. search_groups dec P groups c =
      map_sum id (map_option (\<lambda>r. call_write r c)) res"
proof (induction groups)
  case Nil
  show ?case by (rule exI [of _ "Inr None"]) simp
next
  case (Cons g groups)
  from search_group_outcome [of dec P g g]
  obtain res where g: "\<And>c. search_group dec P g g c =
      map_sum id (map_option (\<lambda>r. call_write r c)) res" by blast
  show ?case
  proof (cases res)
    case (Inl e)
    with g show ?thesis by (intro exI [of _ "Inl e"]) simp
  next
    case (Inr found)
    show ?thesis
    proof (cases found)
      case None
      with Inr g Cons.IH show ?thesis by simp
    next
      case (Some r)
      with Inr g show ?thesis by (intro exI [of _ "Inr (Some r)"]) simp
    qed
  qed
qed

lemma search_or_not_found_outcome:
  "\<exists>res. \<forall>c. search_or_not_found dec P groups c = map_sum id (\<lambda>r. call_write r c) res"
proof -
  from search_groups_outcome [of dec P groups]
  obtain res where g: "\<And>c. search_groups dec P groups c =
      map_sum id (map_option (\<lambda>r. call_write r c)) res" by blast
  show ?thesis
  proof (cases res)
    case (Inl e)
    with g show ?thesis
      by (intro exI [of _ "Inl e"]) (simp add: search_or_not_found_def)
  next
    case (Inr found)
    show ?thesis
    proof (cases found)
      case None
      with Inr g show ?thesis
        by (intro exI [of _ "Inr (errorResponse NOT_FOUND)"]) (simp add: search_or_not_found_def)
    next
      case (Some r)
      with Inr g show ?thesis
        by (intro exI [of _ "Inr r"]) (simp add: search_or_not_found_def)
    qed
  qed
qed

lemma search_or_not_found_error:
  "search_or_not_found dec P groups c = Inl e \<Longrightarrow> e = DecodeError"
proof -
  have g: "search_group dec P protos rest c = Inl e \<Longrightarrow> e = DecodeError" for protos rest
    by (induction rest) (auto split: option.splits if_splits)
  have "search_groups dec P groups c = Inl e \<Longrightarrow> e = DecodeError"
    by (induction groups) (auto split: sum.splits option.splits dest: g)
  then show "search_or_not_found dec P groups c = Inl e \<Longrightarrow> e = DecodeError"
    by (auto simp: search_or_not_found_def split: sum.splits option.splits)
qed

subsection \<open>The handler, branch by branch\<close>

lemma on_data_listServices:
  assumes "truthy (listServices req)" and "[] \<notin> set (services reg)"
  shows "on_data reg dec req c =
           Inr (call_write (listServicesResponse
                  (map (\<lambda>svc. at_index (split (CHR ''/'') (path (hd svc))) 1) (services reg))) c)"
  using assms by (simp add: on_data_def service_names_total)

lemma on_data_symbol:
  assumes "\<not> truthy (listServices req)" and "fileContainingSymbol req = Some s" and "s \<noteq> []"
  shows "on_data reg dec req c =
           search_or_not_found dec (\<lambda>fdp. spec_symbol_matches fdp s) (fileDescriptorProtos reg) c"
  using assms by (simp add: on_data_def symbol_match_spec)

lemma on_data_filename:
  assumes "\<not> truthy (listServices req)" and "\<not> truthy (fileContainingSymbol req)"
    and "fileByFilename req = Some f" and "f \<noteq> []"
  shows "on_data reg dec req c =
           search_or_not_found dec (\<lambda>fdp. spec_filename_matches fdp f) (fileDescriptorProtos reg) c"
  using assms by (simp add: on_data_def filename_match_spec)

lemma on_data_fall_through:
  assumes "\<not> truthy (listServices req)" and "\<not> truthy (fileContainingSymbol req)"
    and "\<not> truthy (fileByFilename req)"
  shows "on_data reg dec req c = Inr (call_write (errorResponse UNIMPLEMENTED) c)"
  using assms by (simp add: on_data_def)

lemma on_data_outcome:
  "\<exists>res. \<forall>c. on_data reg dec req c = map_sum id (\<lambda>r. call_write r c) res"
proof (cases "truthy (listServices req)")
  case True
  show ?thesis
  proof (cases "service_names (services reg)")
    case (Inl e)
    with True show ?thesis by (intro exI [of _ "Inl e"]) (simp add: on_data_def)
  next
    case (Inr ns)
    with True show ?thesis
      by (intro exI [of _ "Inr (listServicesResponse ns)"]) (simp add: on_data_def)
  qed
next
  case ls: False
  show ?thesis
  proof (cases "truthy (fileContainingSymbol req)")
    case True
    with ls search_or_not_found_outcome
      [of dec "\<lambda>fdp. symbol_match fdp (fileContainingSymbol req)" "fileDescriptorProtos reg"]
    show ?thesis by (simp add: on_data_def)
  next
    case sy: False
    show ?thesis
    proof (cases "truthy (fileByFilename req)")
      case True
      with ls sy search_or_not_found_outcome
        [of dec "\<lambda>fdp. filename_match fdp (fileByFilename req)" "fileDescriptorProtos reg"]
      show ?thesis by (simp add: on_data_def)
    next
      case False
      with ls sy show ?thesis
        by (intro exI [of _ "Inr (errorResponse UNIMPLEMENTED)"]) (simp add: on_data_def)
    qed
  qed
qed

lemma on_data_error:
  assumes "[] \<notin> set (services reg)" and "on_data reg dec req c = Inl e"
  shows "e = DecodeError"
  using assms
  by (auto simp: on_data_def service_names_total split: if_splits
        dest: search_or_not_found_error)

subsection \<open>The session\<close>

lemma run_session_uncaught:
  "uncaught s \<noteq> None \<Longrightarrow> run_session reg dec s evs = s"
proof (induction evs)
  case Nil
  then show ?case by (simp add: run_session_def)
next
  case (Cons ev evs)
  then have "session_step reg dec s ev = s" by (cases ev) auto
  with Cons show ?case by (simp add: run_session_def)
qed

lemma run_session_Cons:
  "run_session reg dec s (ev # evs) = run_session reg dec (session_step reg dec s ev) evs"
  by (simp add: run_session_def)

lemma run_session_append:
  "run_session reg dec s (evs1 @ evs2) = run_session reg dec (run_session reg dec s evs1) evs2"
  by (simp add: run_session_def)

lemma response_to_single:
  assumes "\<forall>c. on_data reg dec req c = Inr (call_write r c)"
  shows "response_to reg dec req = [r]"
  using assms by (simp add: response_to_def call_write_def new_call_def)

lemma run_session_data:
  assumes "uncaught s = None"
    and "\<forall>req \<in> set reqs. \<exists>r. \<forall>c. on_data reg dec req c = Inr (call_write r c)"
  shows "run_session reg dec s (map Data reqs) =
           s\<lparr>stream := (stream s)\<lparr>written := written (stream s) @ concat (map (response_to reg dec) reqs)\<rparr>\<rparr>"
  using assms
proof (induction reqs arbitrary: s)
  case Nil
  then show ?case by (simp add: run_session_def)
next
  case (Cons req reqs)
  from Cons.prems(2) obtain r where r: "\<forall>c. on_data reg dec req c = Inr (call_write r c)"
    by auto
  let ?s1 = "s\<lparr>stream := call_write r (stream s)\<rparr>"
  have step: "session_step reg dec s (Data req) = ?s1"
    using Cons.prems(1) r by simp
  have s1: "uncaught ?s1 = None" using Cons.prems(1) by simp
  have rest: "\<forall>req \<in> set reqs. \<exists>r. \<forall>c. on_data reg dec req c = Inr (call_write r c)"
    using Cons.prems(2) by simp
  have "run_session reg dec s (map Data (req # reqs)) = run_session reg dec ?s1 (map Data reqs)"
    using step by (simp only: list.map run_session_Cons)
  also have "\<dots> = ?s1\<lparr>stream := (stream ?s1)\<lparr>written :=
      written (stream ?s1) @ concat (map (response_to reg dec) reqs)\<rparr>\<rparr>"
    by (rule Cons.IH [OF s1 rest])
  also have "\<dots> = s\<lparr>stream := (stream s)\<lparr>written :=
      written (stream s) @ concat (map (response_to reg dec) (req # reqs))\<rparr>\<rparr>"
    by (simp add: response_to_single [OF r] call_write_def)
  finally show ?case .
qed

subsection \<open>Facts about the example registry\<close>

lemmas example_defs =
  greeter_buffer_def plain_buffer_def broken_buffer_def greeter_fdp_def plain_fdp_def
  example_decode_def greeter_service_def plain_service_def bare_service_def
  broken_service_def no_request_def greeter_registry_def example_registry_def
  broken_registry_def example_requests_def new_call_def new_session_def empty_registry_def
  reflection_path_def

lemma greeter_registry_registered:
  "register_all [greeter_service] empty_registry = Inr greeter_registry"
  by (simp add: addReflectedService_def addService_def example_defs)

lemma example_registry_registered:
  "register_all [greeter_service, bare_service, plain_service] empty_registry = Inr example_registry"
  by (simp add: addReflectedService_def addService_def example_defs)

lemma broken_registry_registered:
  "register_all [greeter_service, broken_service] empty_registry = Inr broken_registry"
  by (simp add: addReflectedService_def addService_def example_defs)

lemma greeter_registered_twice:
  "register_all [greeter_service, greeter_service] empty_registry = Inl AddServiceError"
  by (simp add: addReflectedService_def addService_def example_defs)

section \<open>The claims\<close>

subsection \<open>Symbol search\<close>

text \<open>
  C1, as the code has it. For a request whose \<open>fileContainingSymbol\<close> is a non-empty
  string \<open>s\<close> (and whose \<open>listServices\<close> is not a non-empty string), the groups are visited
  in registration order and the buffers of a group in order. A buffer matches when its
  decoded package name is \<open>s\<close> or the package-prefixed name of one of its services,
  messages or enums is \<open>s\<close>. When \<open>b\<close> is the first matching buffer, every buffer before it
  (the earlier groups \<open>pre\<close> and the earlier buffers \<open>bpre\<close> of its own group) decoding to
  a descriptor that does not match, the handler writes one \<open>fileDescriptorResponse\<close> with
  the whole group of \<open>b\<close>, unchanged and in order.
\<close>

theorem fileContainingSymbol_first_group:
  assumes "\<not> truthy (listServices req)"
    and "fileContainingSymbol req = Some s" and "s \<noteq> []"
    and "fileDescriptorProtos reg = pre @ (bpre @ b # bpost) # post"
    and "decoded_without_match dec (\<lambda>fdp. spec_symbol_matches fdp s) (concat pre @ bpre)"
    and "decoded_match dec (\<lambda>fdp. spec_symbol_matches fdp s) b"
  shows "on_data reg dec req c =
           Inr (c\<lparr>written := written c @ [fileDescriptorResponse (bpre @ b # bpost)]\<rparr>)"
proof -
  have "on_data reg dec req c =
          search_or_not_found dec (\<lambda>fdp. spec_symbol_matches fdp s) (fileDescriptorProtos reg) c"
    by (rule on_data_symbol [OF assms(1-3)])
  also have "\<dots> = Inr (call_write (fileDescriptorResponse (bpre @ b # bpost)) c)"
    by (simp add: search_or_not_found_def assms(4) search_groups_first_match [OF assms(5,6)])
  finally show ?thesis by (simp add: call_write_def)
qed

text \<open>
  Witness of C1: in the example registry the symbol \<open>Ping\<close> is a message of the second
  group, whose file has no package; the first group is passed over.
\<close>

theorem fileContainingSymbol_first_group_witness:
  "on_data example_registry example_decode
     (no_request\<lparr>fileContainingSymbol := Some ''Ping''\<rparr>) new_call =
   Inr \<lparr>written = [fileDescriptorResponse [plain_buffer]], ended = False\<rparr>"
proof -
  let ?req = "no_request\<lparr>fileContainingSymbol := Some ''Ping''\<rparr>"
  have 1: "\<not> truthy (listServices ?req)" by (simp add: no_request_def)
  have 2: "fileContainingSymbol ?req = Some ''Ping''" by simp
  have 3: "''Ping'' \<noteq> []" by simp
  have 4: "fileDescriptorProtos example_registry = [[greeter_buffer]] @ ([] @ plain_buffer # []) # []"
    by (simp add: example_registry_def)
  have 5: "decoded_without_match example_decode (\<lambda>fdp. spec_symbol_matches fdp ''Ping'')
             (concat [[greeter_buffer]] @ [])"
    by (simp add: decoded_without_match_def spec_symbol_matches_def spec_qualified_name_def
          example_defs)
  have 6: "decoded_match example_decode (\<lambda>fdp. spec_symbol_matches fdp ''Ping'') plain_buffer"
    by (simp add: decoded_match_def spec_symbol_matches_def spec_qualified_name_def example_defs)
  from fileContainingSymbol_first_group [OF 1 2 3 4 5 6, of new_call]
  show ?thesis by (simp add: new_call_def)
qed

text \<open>
  C1 as stated fails for the empty symbol. The second group of the example registry
  decodes to a file without package, so its package name equals the empty symbol and
  the buffer matches in the sense of the claim; the handler does not search and writes
  \<open>UNIMPLEMENTED\<close>.
\<close>

theorem fileContainingSymbol_empty_symbol_counterexample:
  "example_decode plain_buffer = Some plain_fdp \<and>
   spec_symbol_matches plain_fdp [] \<and>
   on_data example_registry example_decode
     (no_request\<lparr>fileContainingSymbol := Some []\<rparr>) new_call =
   Inr \<lparr>written = [errorResponse UNIMPLEMENTED], ended = False\<rparr>"
  by (simp add: on_data_def call_write_def spec_symbol_matches_def example_defs)

text \<open>
  C5, as the code has it. For a request whose \<open>fileContainingSymbol\<close> is a non-empty
  string \<open>s\<close> (and whose \<open>listServices\<close> is not a non-empty string), when every buffer of
  every registered group decodes and none matches \<open>s\<close>, the handler writes exactly one
  \<open>errorResponse\<close> carrying \<open>NOT_FOUND\<close>.
\<close>

theorem fileContainingSymbol_not_found:
  assumes "\<not> truthy (listServices req)"
    and "fileContainingSymbol req = Some s" and "s \<noteq> []"
    and "decoded_without_match dec (\<lambda>fdp. spec_symbol_matches fdp s)
           (concat (fileDescriptorProtos reg))"
  shows "on_data reg dec req c = Inr (c\<lparr>written := written c @ [errorResponse NOT_FOUND]\<rparr>)"
proof -
  have "on_data reg dec req c =
          search_or_not_found dec (\<lambda>fdp. spec_symbol_matches fdp s) (fileDescriptorProtos reg) c"
    by (rule on_data_symbol [OF assms(1-3)])
  also have "\<dots> = Inr (call_write (errorResponse NOT_FOUND) c)"
    by (simp add: search_or_not_found_def search_groups_no_match [OF assms(4)])
  finally show ?thesis by (simp add: call_write_def)
qed

text \<open>Witness of C5: \<open>nope.Nope\<close> is in neither group of the example registry.\<close>

theorem fileContainingSymbol_not_found_witness:
  "on_data example_registry example_decode
     (no_request\<lparr>fileContainingSymbol := Some ''nope.Nope''\<rparr>) new_call =
   Inr \<lparr>written = [errorResponse NOT_FOUND], ended = False\<rparr>"
proof -
  let ?req = "no_request\<lparr>fileContainingSymbol := Some ''nope.Nope''\<rparr>"
  have 1: "\<not> truthy (listServices ?req)" by (simp add: no_request_def)
  have 2: "fileContainingSymbol ?req = Some ''nope.Nope''" by simp
  have 3: "''nope.Nope'' \<noteq> []" by simp
  have 4: "decoded_without_match example_decode (\<lambda>fdp. spec_symbol_matches fdp ''nope.Nope'')
             (concat (fileDescriptorProtos example_registry))"
    by (simp add: decoded_without_match_def spec_symbol_matches_def spec_qualified_name_def
          example_defs)
  from fileContainingSymbol_not_found [OF 1 2 3 4, of new_call]
  show ?thesis by (simp add: new_call_def)
qed

text \<open>
  C5 as stated fails for the empty symbol: no buffer of the greeter registry matches
  it, and the handler writes \<open>UNIMPLEMENTED\<close>, not \<open>NOT_FOUND\<close>.
\<close>

theorem fileContainingSymbol_empty_not_found_counterexample:
  "fileDescriptorProtos greeter_registry = [[greeter_buffer]] \<and>
   example_decode greeter_buffer = Some greeter_fdp \<and>
   \<not> spec_symbol_matches greeter_fdp [] \<and>
   on_data greeter_registry example_decode
     (no_request\<lparr>fileContainingSymbol := Some []\<rparr>) new_call =
   Inr \<lparr>written = [errorResponse UNIMPLEMENTED], ended = False\<rparr> \<and>
   UNIMPLEMENTED \<noteq> NOT_FOUND"
  by (simp add: on_data_def call_write_def spec_symbol_matches_def spec_qualified_name_def
        UNIMPLEMENTED_def NOT_FOUND_def example_defs)

subsection \<open>Listing the services\<close>

text \<open>
  C2. In the registry \<open>reg\<close> in which the \<open>N\<close> services \<open>svcs\<close> have been registered, in
  this order, under the qualified names \<open>qs\<close>, with or without schema buffers, a request
  that reaches the ListServices branch is answered with one \<open>listServicesResponse\<close> of
  exactly \<open>N\<close> entries: the names \<open>qs\<close>, in registration order.
\<close>

theorem listServices_registration_order:
  assumes "register_all svcs empty_registry = Inr reg"
    and "list_all2 service_named qs svcs" and "truthy (listServices req)"
  shows "on_data reg dec req c =
           Inr (c\<lparr>written := written c @ [listServicesResponse (map Some qs)]\<rparr>) \<and>
         length (map Some qs) = length svcs"
proof -
  from register_all_services [OF assms(1)]
  have svcs: "services reg = svcs" and ne: "[] \<notin> set (services reg)"
    by (simp_all add: empty_registry_def)
  have names: "map (\<lambda>svc. at_index (split (CHR ''/'') (path (hd svc))) 1) svcs = map Some qs"
    using assms(2)
    by (induction qs svcs rule: list_all2_induct) (auto dest: service_named_name)
  have "on_data reg dec req c = Inr (call_write (listServicesResponse (map Some qs)) c)"
    using on_data_listServices [OF assms(3) ne, of dec c] svcs names by simp
  with assms(2) show ?thesis
    by (auto simp: call_write_def dest: list_all2_lengthD)
qed

text \<open>
  Witness of C2: three services, the second one registered without schema buffers.
\<close>

theorem listServices_registration_order_witness:
  "register_all [greeter_service, bare_service, plain_service] empty_registry = Inr example_registry \<and>
   on_data example_registry example_decode (no_request\<lparr>listServices := Some ''*''\<rparr>) new_call =
     Inr \<lparr>written = [listServicesResponse [Some ''greeter.Greeter'', Some ''bare.Bare'', Some ''Plain'']],
          ended = False\<rparr>"
proof -
  let ?req = "no_request\<lparr>listServices := Some ''*''\<rparr>"
  have 1: "list_all2 service_named [''greeter.Greeter'', ''bare.Bare'', ''Plain'']
             [greeter_service, bare_service, plain_service]"
    by (simp add: service_named_def example_defs)
  have 2: "truthy (listServices ?req)" by simp
  from listServices_registration_order [OF example_registry_registered 1 2, of example_decode new_call]
    example_registry_registered
  show ?thesis by (simp add: new_call_def)
qed

text \<open>
  C3, as the code has it. A request whose \<open>listServices\<close> field carries a non-empty
  string, whatever the string and whatever the other fields, takes the ListServices
  branch: on a registry built by registration the handler writes one
  \<open>listServicesResponse\<close>, with one name for each registered service.
\<close>

theorem listServices_nonempty_value:
  assumes "register_all svcs empty_registry = Inr reg"
    and "listServices req = Some v" and "v \<noteq> []"
  shows "on_data reg dec req c =
           Inr (c\<lparr>written := written c @
             [listServicesResponse
                (map (\<lambda>svc. at_index (split (CHR ''/'') (path (hd svc))) 1) svcs)]\<rparr>)"
proof -
  from register_all_services [OF assms(1)]
  have svcs: "services reg = svcs" and ne: "[] \<notin> set (services reg)"
    by (simp_all add: empty_registry_def)
  have "truthy (listServices req)" using assms(2,3) by simp
  from on_data_listServices [OF this ne, of dec c] svcs
  show ?thesis by (simp add: call_write_def)
qed

text \<open>
  Witness of C3: the value is not consulted beyond its truthiness, and a populated
  \<open>fileByFilename\<close> does not change the branch.
\<close>

theorem listServices_nonempty_value_witness:
  "on_data greeter_registry example_decode
     (no_request\<lparr>listServices := Some ''anything'', fileByFilename := Some ''greeter.proto''\<rparr>)
     new_call =
   Inr \<lparr>written = [listServicesResponse [Some ''greeter.Greeter'']], ended = False\<rparr>"
proof -
  let ?req = "no_request\<lparr>listServices := Some ''anything'', fileByFilename := Some ''greeter.proto''\<rparr>"
  have 2: "listServices ?req = Some ''anything''" by simp
  have 3: "''anything'' \<noteq> []" by simp
  from listServices_nonempty_value [OF greeter_registry_registered 2 3, of example_decode new_call]
  show ?thesis by (simp add: at_index_def example_defs)
qed

text \<open>
  C3 as stated fails for the empty string: the field is present, and the handler
  writes \<open>UNIMPLEMENTED\<close>, not a \<open>listServicesResponse\<close>.
\<close>

theorem listServices_empty_string_counterexample:
  "listServices (no_request\<lparr>listServices := Some []\<rparr>) = Some [] \<and>
   on_data greeter_registry example_decode (no_request\<lparr>listServices := Some []\<rparr>) new_call =
   Inr \<lparr>written = [errorResponse UNIMPLEMENTED], ended = False\<rparr>"
  by (simp add: on_data_def call_write_def example_defs)

subsection \<open>File name search\<close>

text \<open>
  C4, as the code has it. For a request that reaches the FileByFilename branch with file
  name \<open>f\<close>, a buffer matches when its decoded file name equals \<open>f\<close>. When \<open>b\<close> is the first
  matching buffer, every buffer before it decoding to a descriptor with another name,
  the handler writes one \<open>fileDescriptorResponse\<close> with the whole group of \<open>b\<close>; when
  every buffer of every group decodes and none matches, it writes one \<open>errorResponse\<close>
  carrying \<open>NOT_FOUND\<close>.
\<close>

theorem fileByFilename_group_or_not_found:
  assumes "\<not> truthy (listServices req)" and "\<not> truthy (fileContainingSymbol req)"
    and "fileByFilename req = Some f" and "f \<noteq> []"
  shows "(fileDescriptorProtos reg = pre @ (bpre @ b # bpost) # post \<and>
          decoded_without_match dec (\<lambda>fdp. spec_filename_matches fdp f) (concat pre @ bpre) \<and>
          decoded_match dec (\<lambda>fdp. spec_filename_matches fdp f) b \<longrightarrow>
          on_data reg dec req c =
            Inr (c\<lparr>written := written c @ [fileDescriptorResponse (bpre @ b # bpost)]\<rparr>)) \<and>
         (decoded_without_match dec (\<lambda>fdp. spec_filename_matches fdp f)
            (concat (fileDescriptorProtos reg)) \<longrightarrow>
          on_data reg dec req c = Inr (c\<lparr>written := written c @ [errorResponse NOT_FOUND]\<rparr>))"
proof -
  have branch: "on_data reg dec req c =
      search_or_not_found dec (\<lambda>fdp. spec_filename_matches fdp f) (fileDescriptorProtos reg) c"
    by (rule on_data_filename [OF assms])
  show ?thesis
    by (simp add: branch search_or_not_found_def search_groups_first_match
          search_groups_no_match call_write_def)
qed

text \<open>
  Witness of C4: \<open>plain.proto\<close> is the file of the second group of the example
  registry, and \<open>nope.proto\<close> is the file of no group.
\<close>

theorem fileByFilename_group_or_not_found_witness:
  "on_data example_registry example_decode
     (no_request\<lparr>fileByFilename := Some ''plain.proto''\<rparr>) new_call =
   Inr \<lparr>written = [fileDescriptorResponse [plain_buffer]], ended = False\<rparr> \<and>
   on_data example_registry example_decode
     (no_request\<lparr>fileByFilename := Some ''nope.proto''\<rparr>) new_call =
   Inr \<lparr>written = [errorResponse NOT_FOUND], ended = False\<rparr>"
proof -
  let ?hit = "no_request\<lparr>fileByFilename := Some ''plain.proto''\<rparr>"
  let ?miss = "no_request\<lparr>fileByFilename := Some ''nope.proto''\<rparr>"
  have h1: "\<not> truthy (listServices ?hit)" and h2: "\<not> truthy (fileContainingSymbol ?hit)"
    and h3: "fileByFilename ?hit = Some ''plain.proto''" and h4: "''plain.proto'' \<noteq> []"
    by (simp_all add: no_request_def)
  have m1: "\<not> truthy (listServices ?miss)" and m2: "\<not> truthy (fileContainingSymbol ?miss)"
    and m3: "fileByFilename ?miss = Some ''nope.proto''" and m4: "''nope.proto'' \<noteq> []"
    by (simp_all add: no_request_def)
  have groups: "fileDescriptorProtos example_registry = [[greeter_buffer]] @ ([] @ plain_buffer # []) # []"
    by (simp add: example_registry_def)
  have before: "decoded_without_match example_decode (\<lambda>fdp. spec_filename_matches fdp ''plain.proto'')
                  (concat [[greeter_buffer]] @ [])"
    by (simp add: decoded_without_match_def spec_filename_matches_def example_defs)
  have hit: "decoded_match example_decode (\<lambda>fdp. spec_filename_matches fdp ''plain.proto'') plain_buffer"
    by (simp add: decoded_match_def spec_filename_matches_def example_defs)
  have none: "decoded_without_match example_decode (\<lambda>fdp. spec_filename_matches fdp ''nope.proto'')
                (concat (fileDescriptorProtos example_registry))"
    by (simp add: decoded_without_match_def spec_filename_matches_def example_defs)
  from fileByFilename_group_or_not_found [OF h1 h2 h3 h4,
      of example_registry "[[greeter_buffer]]" "[]" plain_buffer "[]" "[]" example_decode new_call]
    groups before hit
  have a: "on_data example_registry example_decode ?hit new_call =
      Inr (new_call\<lparr>written := written new_call @ [fileDescriptorResponse ([] @ plain_buffer # [])]\<rparr>)"
    by blast
  from fileByFilename_group_or_not_found [OF m1 m2 m3 m4,
      of example_registry "[]" "[]" "[]" "[]" "[]" example_decode new_call] none
  have b: "on_data example_registry example_decode ?miss new_call =
      Inr (new_call\<lparr>written := written new_call @ [errorResponse NOT_FOUND]\<rparr>)"
    by blast
  from a b show ?thesis by (simp add: new_call_def)
qed

text \<open>
  C4 as stated fails when the search visits a buffer that does not decode. In the
  broken registry no buffer has the file name \<open>nope.proto\<close>, and the handler throws
  instead of writing \<open>NOT_FOUND\<close>; the file name \<open>plain.proto\<close> is that of the last
  buffer, and the handler throws before it gets there.
\<close>

theorem fileByFilename_undecodable_counterexample:
  "fileDescriptorProtos broken_registry = [[greeter_buffer], [broken_buffer, plain_buffer]] \<and>
   example_decode greeter_buffer = Some greeter_fdp \<and>
   example_decode broken_buffer = None \<and>
   example_decode plain_buffer = Some plain_fdp \<and>
   \<not> spec_filename_matches greeter_fdp ''nope.proto'' \<and>
   \<not> spec_filename_matches plain_fdp ''nope.proto'' \<and>
   on_data broken_registry example_decode
     (no_request\<lparr>fileByFilename := Some ''nope.proto''\<rparr>) new_call = Inl DecodeError \<and>
   \<not> spec_filename_matches greeter_fdp ''plain.proto'' \<and>
   spec_filename_matches plain_fdp ''plain.proto'' \<and>
   on_data broken_registry example_decode
     (no_request\<lparr>fileByFilename := Some ''plain.proto''\<rparr>) new_call = Inl DecodeError"
  by (simp add: on_data_def search_or_not_found_def filename_match_def
        spec_filename_matches_def example_defs)

subsection \<open>Requests that no branch recognizes\<close>

text \<open>
  C6. A request that is a \<open>fileContainingExtension\<close> request, an
  \<open>allExtensionNumbersOfType\<close> request, or has no recognized field populated, that is, a
  request on which none of the three fields the handler reads is populated, is answered
  with exactly one \<open>errorResponse\<close> carrying \<open>UNIMPLEMENTED\<close>; the handler does not throw.
\<close>

theorem unrecognized_request_unimplemented:
  assumes "listServices req = None" and "fileContainingSymbol req = None"
    and "fileByFilename req = None"
  shows "on_data reg dec req c = Inr (c\<lparr>written := written c @ [errorResponse UNIMPLEMENTED]\<rparr>)"
  using on_data_fall_through [of req reg dec c] assms by (simp add: call_write_def)

text \<open>
  Witness of C6: an extension request, an extension numbers request and a request with
  no field at all, on a registry whose second group cannot even be decoded.
\<close>

theorem unrecognized_request_unimplemented_witness:
  "on_data broken_registry example_decode
     (no_request\<lparr>fileContainingExtension := Some ''greeter.HelloRequest''\<rparr>) new_call =
   Inr \<lparr>written = [errorResponse UNIMPLEMENTED], ended = False\<rparr> \<and>
   on_data broken_registry example_decode
     (no_request\<lparr>allExtensionNumbersOfType := Some ''greeter.HelloRequest''\<rparr>) new_call =
   Inr \<lparr>written = [errorResponse UNIMPLEMENTED], ended = False\<rparr> \<and>
   on_data broken_registry example_decode no_request new_call =
   Inr \<lparr>written = [errorResponse UNIMPLEMENTED], ended = False\<rparr>"
  using
    unrecognized_request_unimplemented
      [of "no_request\<lparr>fileContainingExtension := Some ''greeter.HelloRequest''\<rparr>"
          broken_registry example_decode new_call]
    unrecognized_request_unimplemented
      [of "no_request\<lparr>allExtensionNumbersOfType := Some ''greeter.HelloRequest''\<rparr>"
          broken_registry example_decode new_call]
    unrecognized_request_unimplemented [of no_request broken_registry example_decode new_call]
  by (simp add: no_request_def new_call_def)

text \<open>
  C10. A request whose only populated field is \<open>fileContainingSymbol\<close> or
  \<open>fileByFilename\<close>, carrying the empty string, is answered with one \<open>errorResponse\<close>
  carrying \<open>UNIMPLEMENTED\<close>, which is neither \<open>NOT_FOUND\<close> nor the result of a search: the
  registry and the decoder play no part.
\<close>

theorem empty_string_payload_unimplemented:
  assumes "listServices req = None"
    and "(fileContainingSymbol req = Some [] \<and> fileByFilename req = None) \<or>
         (fileContainingSymbol req = None \<and> fileByFilename req = Some [])"
  shows "on_data reg dec req c = Inr (c\<lparr>written := written c @ [errorResponse UNIMPLEMENTED]\<rparr>) \<and>
         errorResponse UNIMPLEMENTED \<noteq> errorResponse NOT_FOUND"
proof -
  from assms have "\<not> truthy (listServices req)" and "\<not> truthy (fileContainingSymbol req)"
    and "\<not> truthy (fileByFilename req)"
    by auto
  from on_data_fall_through [OF this, of reg dec c]
  show ?thesis by (simp add: call_write_def UNIMPLEMENTED_def NOT_FOUND_def)
qed

text \<open>
  Witness of C10: the empty file name, on a registry that holds a file without package
  and a buffer that does not decode.
\<close>

theorem empty_string_payload_unimplemented_witness:
  "on_data broken_registry example_decode (no_request\<lparr>fileByFilename := Some []\<rparr>) new_call =
   Inr \<lparr>written = [errorResponse UNIMPLEMENTED], ended = False\<rparr> \<and>
   on_data broken_registry example_decode (no_request\<lparr>fileContainingSymbol := Some []\<rparr>) new_call =
   Inr \<lparr>written = [errorResponse UNIMPLEMENTED], ended = False\<rparr>"
  using
    empty_string_payload_unimplemented
      [of "no_request\<lparr>fileByFilename := Some []\<rparr>" broken_registry example_decode new_call]
    empty_string_payload_unimplemented
      [of "no_request\<lparr>fileContainingSymbol := Some []\<rparr>" broken_registry example_decode new_call]
  by (simp add: no_request_def new_call_def)

subsection \<open>The stream\<close>

text \<open>
  C7. On one open stream, over a registry built by registration, when no request of the
  sequence runs into a decode failure, every request is answered with exactly one
  response, and after the first \<open>k\<close> requests exactly the responses to these \<open>k\<close>
  requests have been written, in the order of the requests: each response is written
  before the next request is processed. No exception is left uncaught and the stream
  is not ended.
\<close>

theorem responses_in_request_order:
  assumes "register_all svcs empty_registry = Inr reg"
    and "\<forall>req \<in> set reqs. on_data reg dec req new_call \<noteq> Inl DecodeError"
  shows "(\<forall>req \<in> set reqs. length (response_to reg dec req) = 1) \<and>
         (\<forall>k \<le> length reqs.
            run_session reg dec new_session (map Data (take k reqs)) =
              \<lparr>stream = \<lparr>written = concat (map (response_to reg dec) (take k reqs)), ended = False\<rparr>,
               uncaught = None\<rparr>)"
proof -
  from register_all_services [OF assms(1)] have ne: "[] \<notin> set (services reg)"
    by (simp add: empty_registry_def)
  have each: "\<forall>req \<in> set reqs. \<exists>r. \<forall>c. on_data reg dec req c = Inr (call_write r c)"
  proof
    fix req assume req: "req \<in> set reqs"
    from on_data_outcome [of reg dec req]
    obtain res where res: "\<And>c. on_data reg dec req c = map_sum id (\<lambda>r. call_write r c) res"
      by blast
    show "\<exists>r. \<forall>c. on_data reg dec req c = Inr (call_write r c)"
    proof (cases res)
      case (Inl e)
      with res have thrown: "on_data reg dec req new_call = Inl e" by simp
      from on_data_error [OF ne thrown] thrown assms(2) req show ?thesis by auto
    next
      case (Inr r)
      with res show ?thesis by auto
    qed
  qed
  have one: "\<forall>req \<in> set reqs. length (response_to reg dec req) = 1"
  proof
    fix req assume "req \<in> set reqs"
    with each obtain r where "\<forall>c. on_data reg dec req c = Inr (call_write r c)" by blast
    from response_to_single [OF this] show "length (response_to reg dec req) = 1" by simp
  qed
  have run: "run_session reg dec new_session (map Data (take k reqs)) =
      \<lparr>stream = \<lparr>written = concat (map (response_to reg dec) (take k reqs)), ended = False\<rparr>,
       uncaught = None\<rparr>" for k
  proof -
    have sub: "\<forall>req \<in> set (take k reqs). \<exists>r. \<forall>c. on_data reg dec req c = Inr (call_write r c)"
      using each by (auto dest: in_set_takeD)
    have "uncaught new_session = None" by (simp add: new_session_def)
    from run_session_data [OF this sub] show ?thesis
      by (simp add: new_session_def new_call_def)
  qed
  from one run show ?thesis by blast
qed

text \<open>
  Witness of C7: three requests on the greeter registry, a listing, a symbol that is
  found and a file name that is not, and their three responses in that order.
\<close>

theorem responses_in_request_order_witness:
  "run_session greeter_registry example_decode new_session (map Data example_requests) =
     \<lparr>stream =
        \<lparr>written =
           [listServicesResponse [Some ''greeter.Greeter''],
            fileDescriptorResponse [greeter_buffer],
            errorResponse NOT_FOUND],
         ended = False\<rparr>,
      uncaught = None\<rparr>"
proof -
  have r1: "on_data greeter_registry example_decode (no_request\<lparr>listServices := Some ''*''\<rparr>) new_call =
      Inr \<lparr>written = [listServicesResponse [Some ''greeter.Greeter'']], ended = False\<rparr>"
    by (simp add: on_data_def call_write_def at_index_def example_defs)
  have r2: "on_data greeter_registry example_decode
      (no_request\<lparr>fileContainingSymbol := Some ''greeter.Greeter''\<rparr>) new_call =
      Inr \<lparr>written = [fileDescriptorResponse [greeter_buffer]], ended = False\<rparr>"
    by (simp add: on_data_def search_or_not_found_def symbol_match_def findIndex_def
          call_write_def example_defs)
  have r3: "on_data greeter_registry example_decode
      (no_request\<lparr>fileByFilename := Some ''nope.proto''\<rparr>) new_call =
      Inr \<lparr>written = [errorResponse NOT_FOUND], ended = False\<rparr>"
    by (simp add: on_data_def search_or_not_found_def filename_match_def
          call_write_def example_defs)
  have ok: "\<forall>req \<in> set example_requests.
      on_data greeter_registry example_decode req new_call \<noteq> Inl DecodeError"
    using r1 r2 r3 by (simp add: example_requests_def)
  from responses_in_request_order [OF greeter_registry_registered ok]
  have "\<forall>k \<le> length example_requests.
      run_session greeter_registry example_decode new_session (map Data (take k example_requests)) =
      \<lparr>stream = \<lparr>written = concat (map (response_to greeter_registry example_decode)
         (take k example_requests)), ended = False\<rparr>, uncaught = None\<rparr>"
    by (rule conjunct2)
  from spec [OF this, of "length example_requests"]
  have "run_session greeter_registry example_decode new_session (map Data example_requests) =
      \<lparr>stream = \<lparr>written = concat (map (response_to greeter_registry example_decode)
         example_requests), ended = False\<rparr>, uncaught = None\<rparr>"
    by simp
  then show ?thesis
    using r1 r2 r3 by (simp add: example_requests_def response_to_def)
qed

text \<open>
  C8. When the search of a \<open>fileContainingSymbol\<close> or \<open>fileByFilename\<close> request comes to a
  stored buffer \<open>b\<close> whose decoding fails, every buffer before it having decoded without
  a match, the handler throws the decode failure and writes nothing: the buffer is not
  skipped, although a later buffer might match, and no \<open>errorResponse\<close> is produced. The
  exception is caught nowhere, and the session writes nothing for this request nor for
  any later event.
\<close>

theorem decode_failure_propagates:
  assumes "fileDescriptorProtos reg = pre @ (bpre @ b # bpost) # post"
    and "dec b = None"
    and "\<not> truthy (listServices req)"
    and "(fileContainingSymbol req = Some s \<and> s \<noteq> [] \<and>
          decoded_without_match dec (\<lambda>fdp. spec_symbol_matches fdp s) (concat pre @ bpre)) \<or>
         (\<not> truthy (fileContainingSymbol req) \<and> fileByFilename req = Some s \<and> s \<noteq> [] \<and>
          decoded_without_match dec (\<lambda>fdp. spec_filename_matches fdp s) (concat pre @ bpre))"
    and "uncaught ses = None"
  shows "on_data reg dec req (stream ses) = Inl DecodeError \<and>
         run_session reg dec ses (Data req # evs) = ses\<lparr>uncaught := Some DecodeError\<rparr>"
proof -
  have thrown: "on_data reg dec req (stream ses) = Inl DecodeError"
    using assms(4)
  proof
    assume sym: "fileContainingSymbol req = Some s \<and> s \<noteq> [] \<and>
      decoded_without_match dec (\<lambda>fdp. spec_symbol_matches fdp s) (concat pre @ bpre)"
    then have "on_data reg dec req (stream ses) =
        search_or_not_found dec (\<lambda>fdp. spec_symbol_matches fdp s) (fileDescriptorProtos reg) (stream ses)"
      using on_data_symbol [OF assms(3), of s reg dec "stream ses"] by simp
    moreover from sym
    have "decoded_without_match dec (\<lambda>fdp. spec_symbol_matches fdp s) (concat pre @ bpre)"
      by simp
    note search_groups_decode_failure [OF this assms(2)]
    ultimately show ?thesis
      by (simp add: search_or_not_found_def assms(1))
  next
    assume fn: "\<not> truthy (fileContainingSymbol req) \<and> fileByFilename req = Some s \<and> s \<noteq> [] \<and>
      decoded_without_match dec (\<lambda>fdp. spec_filename_matches fdp s) (concat pre @ bpre)"
    then have "on_data reg dec req (stream ses) =
        search_or_not_found dec (\<lambda>fdp. spec_filename_matches fdp s) (fileDescriptorProtos reg) (stream ses)"
      using on_data_filename [OF assms(3), of s reg dec "stream ses"] by simp
    moreover from fn
    have "decoded_without_match dec (\<lambda>fdp. spec_filename_matches fdp s) (concat pre @ bpre)"
      by simp
    note search_groups_decode_failure [OF this assms(2)]
    ultimately show ?thesis
      by (simp add: search_or_not_found_def assms(1))
  qed
  have step: "session_step reg dec ses (Data req) = ses\<lparr>uncaught := Some DecodeError\<rparr>"
    using thrown assms(5) by simp
  have "run_session reg dec ses (Data req # evs) =
      run_session reg dec (ses\<lparr>uncaught := Some DecodeError\<rparr>) evs"
    using step by (simp only: run_session_Cons)
  also have "\<dots> = ses\<lparr>uncaught := Some DecodeError\<rparr>"
    by (rule run_session_uncaught) simp
  finally show ?thesis using thrown by simp
qed

text \<open>
  Witness of C8: in the second group of the broken registry the buffer that does not
  decode comes before the buffer that declares \<open>Plain\<close>. The search for \<open>Plain\<close> throws
  instead of passing on to it, and the listing that follows is not answered.
\<close>

theorem decode_failure_propagates_witness:
  "run_session broken_registry example_decode new_session
     [Data (no_request\<lparr>fileContainingSymbol := Some ''Plain''\<rparr>),
      Data (no_request\<lparr>listServices := Some ''*''\<rparr>)] =
   \<lparr>stream = \<lparr>written = [], ended = False\<rparr>, uncaught = Some DecodeError\<rparr>"
proof -
  let ?req = "no_request\<lparr>fileContainingSymbol := Some ''Plain''\<rparr>"
  have 1: "fileDescriptorProtos broken_registry =
      [[greeter_buffer]] @ ([] @ broken_buffer # [plain_buffer]) # []"
    by (simp add: broken_registry_def)
  have 2: "example_decode broken_buffer = None" by (simp add: example_defs)
  have 3: "\<not> truthy (listServices ?req)" by (simp add: no_request_def)
  have 4: "(fileContainingSymbol ?req = Some ''Plain'' \<and> ''Plain'' \<noteq> [] \<and>
        decoded_without_match example_decode (\<lambda>fdp. spec_symbol_matches fdp ''Plain'')
          (concat [[greeter_buffer]] @ [])) \<or>
      (\<not> truthy (fileContainingSymbol ?req) \<and> fileByFilename ?req = Some ''Plain'' \<and> ''Plain'' \<noteq> [] \<and>
        decoded_without_match example_decode (\<lambda>fdp. spec_filename_matches fdp ''Plain'')
          (concat [[greeter_buffer]] @ []))"
    by (simp add: decoded_without_match_def spec_symbol_matches_def spec_qualified_name_def
          example_defs)
  have 5: "uncaught new_session = None" by (simp add: new_session_def)
  from decode_failure_propagates [OF 1 2 3 4 5,
      where evs = "[Data (no_request\<lparr>listServices := Some ''*''\<rparr>)]"]
  show ?thesis by (simp add: new_session_def new_call_def)
qed

text \<open>
  C9, as the code has it. The handler of \<open>cancelled\<close> only logs: a cancellation signal
  changes nothing in the session and writes nothing, there is no cancelled state, and
  the events delivered after it are handled as if it had not been received. A request
  delivered after the signal is answered with a call of \<open>call.write\<close> like any other.
\<close>

theorem cancelled_changes_nothing:
  "run_session reg dec ses (evs1 @ Cancelled # evs2) = run_session reg dec ses (evs1 @ evs2)"
  by (simp add: run_session_def)

text \<open>
  C9 as stated fails: a request delivered after the cancellation signal is answered,
  here with the \<open>UNIMPLEMENTED\<close> response of the request without fields.
\<close>

theorem cancelled_then_data_counterexample:
  "run_session greeter_registry example_decode new_session [Cancelled, Data no_request] =
   \<lparr>stream = \<lparr>written = [errorResponse UNIMPLEMENTED], ended = False\<rparr>, uncaught = None\<rparr>"
  by (simp add: run_session_def on_data_def call_write_def example_defs)

end
